theory Spec2Isabelle
  imports Complex_Main
begin

section \<open>JavaScript strings\<close>

text \<open>
  A JavaScript string is a sequence of code units. The model uses \<^typ>\<open>string\<close>: each
  \<^typ>\<open>char\<close> is one code unit in the range 0..255 (the Latin-1 part of UTF-16), so that
  \<open>length\<close> is the \<open>.length\<close> of the source.
\<close>

definition LF :: char where
  "LF = CHR 0x0A"

definition DQ :: char where
  "DQ = CHR 0x22"

text \<open>White space and line terminators of ECMAScript below code unit 256: what
  \<open>String.prototype.trim\<close> strips and what \<open>\s\<close> matches.\<close>

definition isSpace :: "char \<Rightarrow> bool" where
  "isSpace c = (c = CHR 0x09 \<or> c = CHR 0x0A \<or> c = CHR 0x0B \<or> c = CHR 0x0C \<or> c = CHR 0x0D
     \<or> c = CHR 0x20 \<or> c = CHR 0xA0)"

definition isLineTerminator :: "char \<Rightarrow> bool" where
  "isLineTerminator c = (c = CHR 0x0A \<or> c = CHR 0x0D)"

definition isDigit :: "char \<Rightarrow> bool" where
  "isDigit c = (let n = (of_char c :: nat) in 48 \<le> n \<and> n \<le> 57)"

definition isUpperAscii :: "char \<Rightarrow> bool" where
  "isUpperAscii c = (let n = (of_char c :: nat) in 65 \<le> n \<and> n \<le> 90)"

definition isLowerAscii :: "char \<Rightarrow> bool" where
  "isLowerAscii c = (let n = (of_char c :: nat) in 97 \<le> n \<and> n \<le> 122)"

text \<open>The class \<open>\w\<close>: \<open>[A-Za-z0-9_]\<close>.\<close>

definition isWord :: "char \<Rightarrow> bool" where
  "isWord c = (isUpperAscii c \<or> isLowerAscii c \<or> isDigit c \<or> c = CHR ''_'')"

text \<open>\<open>String.prototype.toLowerCase\<close> on one code unit below 256: \<open>A-Z\<close> and the
  Latin-1 capitals \<open>0xC0..0xDE\<close> (without the multiplication sign \<open>0xD7\<close>) move up by 32.\<close>

definition toLowerChar :: "char \<Rightarrow> char" where
  "toLowerChar c = (let n = (of_char c :: nat) in
     if (65 \<le> n \<and> n \<le> 90) \<or> (192 \<le> n \<and> n \<le> 222 \<and> n \<noteq> 215) then char_of (n + 32) else c)"

definition toLowerCase :: "string \<Rightarrow> string" where
  "toLowerCase s = map toLowerChar s"

text \<open>\<open>String.prototype.trim\<close>.\<close>

definition trim :: "string \<Rightarrow> string" where
  "trim s = rev (dropWhile isSpace (rev (dropWhile isSpace s)))"

fun startsWith :: "string \<Rightarrow> string \<Rightarrow> bool" where
  "startsWith s [] = True"
| "startsWith [] (p # ps) = False"
| "startsWith (c # cs) (p # ps) = (c = p \<and> startsWith cs ps)"

text \<open>\<open>String.prototype.includes\<close> (the name is a keyword of Isabelle).\<close>

fun includes_str :: "string \<Rightarrow> string \<Rightarrow> bool" where
  "includes_str [] sub = (sub = [])"
| "includes_str (c # cs) sub = (if startsWith (c # cs) sub then True else includes_str cs sub)"

text \<open>\<open>text.split("\n")\<close>: never empty, one more piece than there are line feeds.\<close>

fun split_LF :: "string \<Rightarrow> string list" where
  "split_LF [] = [[]]"
| "split_LF (c # cs) =
     (if c = LF then [] # split_LF cs
      else (case split_LF cs of [] \<Rightarrow> [[c]] | l # ls \<Rightarrow> (c # l) # ls))"

text \<open>\<open>lines.join("\n")\<close>.\<close>

fun join_LF :: "string list \<Rightarrow> string" where
  "join_LF [] = []"
| "join_LF [l] = l"
| "join_LF (l # l' # ls) = l @ [LF] @ join_LF (l' # ls)"

text \<open>\<open>Array.prototype.slice(from, to)\<close> with non-negative bounds.\<close>

definition slice :: "'a list \<Rightarrow> nat \<Rightarrow> nat \<Rightarrow> 'a list" where
  "slice xs from to = take (to - from) (drop from xs)"

text \<open>\<open>Array.prototype.some\<close>, left to right, stopping at the first hit.\<close>

fun some :: "('a \<Rightarrow> bool) \<Rightarrow> 'a list \<Rightarrow> bool" where
  "some P [] = False"
| "some P (x # xs) = (if P x then True else some P xs)"

text \<open>Decimal rendering of a non-negative integer inside a template literal.\<close>

definition digitChar :: "nat \<Rightarrow> char" where
  "digitChar d = char_of (48 + d)"

function showNat :: "nat \<Rightarrow> string" where
  "showNat n = (if n < 10 then [digitChar n] else showNat (n div 10) @ [digitChar (n mod 10)])"
  by pat_completeness auto
termination
  by (relation "measure id") auto

declare showNat.simps [simp del]

section \<open>Regular expressions\<close>

text \<open>
  The regular expressions of the source use literals, character classes, \<open>*\<close> and \<open>+\<close>
  on a single class, the word boundary \<open>\b\<close> and the multi-line anchor \<open>^\<close>; none has
  alternation or groups. A pattern is the list of its atoms in order; \<open>matchAtoms\<close>
  decides whether the pattern matches at the current position (with backtracking over
  every \<open>*\<close>), given the code unit before that position, and \<open>test\<close> tries every start
  position, as \<open>RegExp.prototype.test\<close> does for a pattern without the \<open>g\<close> flag.
\<close>

datatype atom =
    One "char \<Rightarrow> bool"
  | Many "char \<Rightarrow> bool"
  | WordBoundary
  | LineStart

definition isWordOpt :: "char option \<Rightarrow> bool" where
  "isWordOpt c = (case c of None \<Rightarrow> False | Some x \<Rightarrow> isWord x)"

definition headOpt :: "string \<Rightarrow> char option" where
  "headOpt s = (case s of [] \<Rightarrow> None | c # _ \<Rightarrow> Some c)"

fun matchAtoms :: "atom list \<Rightarrow> char option \<Rightarrow> string \<Rightarrow> bool" where
  "matchAtoms [] prev s = True"
| "matchAtoms (One P # as) prev [] = False"
| "matchAtoms (One P # as) prev (c # cs) = (if P c then matchAtoms as (Some c) cs else False)"
| "matchAtoms (Many P # as) prev [] = matchAtoms as prev []"
| "matchAtoms (Many P # as) prev (c # cs) =
     (if P c \<and> matchAtoms (Many P # as) (Some c) cs then True else matchAtoms as prev (c # cs))"
| "matchAtoms (WordBoundary # as) prev s =
     (if isWordOpt prev \<noteq> isWordOpt (headOpt s) then matchAtoms as prev s else False)"
| "matchAtoms (LineStart # as) prev s =
     (if (case prev of None \<Rightarrow> True | Some p \<Rightarrow> isLineTerminator p) then matchAtoms as prev s
      else False)"

fun searchFrom :: "atom list \<Rightarrow> char option \<Rightarrow> string \<Rightarrow> bool" where
  "searchFrom as prev [] = matchAtoms as prev []"
| "searchFrom as prev (c # cs) =
     (if matchAtoms as prev (c # cs) then True else searchFrom as (Some c) cs)"

definition test :: "atom list \<Rightarrow> string \<Rightarrow> bool" where
  "test as s = searchFrom as None s"

text \<open>A literal, case-sensitive.\<close>

definition lit :: "string \<Rightarrow> atom list" where
  "lit s = map (\<lambda>p. One (\<lambda>c. c = p)) s"

text \<open>A literal under the \<open>i\<close> flag (no \<open>u\<close> flag): an ASCII letter of the pattern
  matches itself in either case and no other code unit; any other pattern character
  matches itself only.\<close>

definition asciiUpper :: "char \<Rightarrow> char" where
  "asciiUpper c = (if isLowerAscii c then char_of ((of_char c :: nat) - 32) else c)"

definition litCI :: "string \<Rightarrow> atom list" where
  "litCI s = map (\<lambda>p. One (\<lambda>c. asciiUpper c = asciiUpper p)) s"

text \<open>\<open>C*\<close> and \<open>C+\<close> for a class \<open>C\<close>.\<close>

definition zeroOrMore :: "(char \<Rightarrow> bool) \<Rightarrow> atom list" where
  "zeroOrMore P = [Many P]"

definition oneOrMore :: "(char \<Rightarrow> bool) \<Rightarrow> atom list" where
  "oneOrMore P = [One P, Many P]"

section \<open>Configuration: \<open>config/limits.ts\<close>\<close>

definition DEFAULT_LIMIT :: int where "DEFAULT_LIMIT = 20"
definition MAX_LIMIT :: int where "MAX_LIMIT = 50"
definition MIN_LIMIT :: int where "MIN_LIMIT = 1"
definition MAX_MESSAGE_LENGTH :: nat where "MAX_MESSAGE_LENGTH = 1000"
definition MAX_STACK_TRACE_LINES :: nat where "MAX_STACK_TRACE_LINES = 5"
definition MAX_TIME_WINDOW_HOURS :: int where "MAX_TIME_WINDOW_HOURS = 24"
definition MAX_PAGES :: int where "MAX_PAGES = 100"
definition MAX_RETRIES :: nat where "MAX_RETRIES = 3"
definition RETRY_DELAY_MS :: nat where "RETRY_DELAY_MS = 1000"

datatype preset = P15m | P1h | P6h | P24h

datatype timeframe = Preset preset | Custom

fun TIMEFRAME_MAP :: "preset \<Rightarrow> int" where
  "TIMEFRAME_MAP P15m = 15 * 60 * 1000"
| "TIMEFRAME_MAP P1h = 60 * 60 * 1000"
| "TIMEFRAME_MAP P6h = 6 * 60 * 60 * 1000"
| "TIMEFRAME_MAP P24h = 24 * 60 * 60 * 1000"

section \<open>Types: \<open>types/index.ts\<close>\<close>

datatype QuerySyntax = lucene | dataprime

text \<open>\<open>QueryLogsInput\<close>; an optional property is an \<open>option\<close>. \<open>limit\<close> and \<open>page\<close> are
  integers, as the tool's input schema declares them.\<close>

record QueryLogsInput =
  query :: string
  timeframe :: "timeframe option"
  startDate :: "string option"
  endDate :: "string option"
  limit :: "int option"
  page :: "int option"

text \<open>A \<open>Date\<close> object: its time value in milliseconds, or \<open>None\<close> for an Invalid Date
  (time value \<open>NaN\<close>).\<close>

type_synonym date = "int option"

record QueryContext =
  originalQuery :: string
  detectedSyntax :: QuerySyntax
  timeRange_start :: date
  timeRange_end :: date
  limit_c :: int
  includeArchive :: bool

datatype invalid_input =
    QueryRequired
  | QueryNotNonEmptyString
  | CustomDatesRequired
  | DatesNotISO8601

text \<open>Every \<open>throw\<close> of the source, by its message. \<open>FailedToQueryLogs e\<close> and
  \<open>FailedToQueryCoralogix e\<close> are the two \<open>catch\<close> blocks that re-throw with a prefix.\<close>

datatype error =
    InvalidInput invalid_input
  | RangeTooWide
  | PageOutOfRange
  | InvalidTimeValue
  | ApiError nat
  | MalformedResponse
  | TransportFailure
  | BodyReadFailed
  | FailedToQueryCoralogix error
  | FailedToQueryLogs error

section \<open>\<open>QueryProcessor\<close>: \<open>utils/query-processor.ts\<close>\<close>

definition dataPrimePatterns :: "atom list list" where
  "dataPrimePatterns =
    [ [WordBoundary] @ litCI ''source'' @ oneOrMore isSpace @ oneOrMore isWord @ zeroOrMore isSpace @ lit ''|'',
      lit ''|'' @ zeroOrMore isSpace @ litCI ''filter'' @ [WordBoundary],
      lit ''|'' @ zeroOrMore isSpace @ litCI ''limit'' @ [WordBoundary],
      lit ''|'' @ zeroOrMore isSpace @ litCI ''sort'' @ [WordBoundary],
      lit ''|'' @ zeroOrMore isSpace @ litCI ''choose'' @ [WordBoundary],
      lit ''|'' @ zeroOrMore isSpace @ litCI ''extract'' @ [WordBoundary],
      lit ''|'' @ zeroOrMore isSpace @ litCI ''groupby'' @ [WordBoundary],
      lit ''|'' @ zeroOrMore isSpace @ litCI ''summarize'' @ [WordBoundary],
      oneOrMore isSpace @ litCI ''contains'' @ oneOrMore isSpace,
      oneOrMore isSpace @ litCI ''startswith'' @ oneOrMore isSpace,
      oneOrMore isSpace @ litCI ''endswith'' @ oneOrMore isSpace ]"

definition detectQuerySyntax :: "string \<Rightarrow> QuerySyntax" where
  "detectQuerySyntax q =
     (let isDataPrime = some (\<lambda>pattern. test pattern q) dataPrimePatterns
      in if isDataPrime then dataprime else lucene)"

text \<open>\<open>new Date(t)\<close> for a number \<open>t\<close>: the time value is clipped to the range of
  \<open>Date\<close>.\<close>

definition newDate :: "int \<Rightarrow> date" where
  "newDate t = (if \<bar>t\<bar> \<le> 8640000000000000 then Some t else None)"

text \<open>\<open>a.getTime() - b.getTime() > m\<close> and \<open>a.getTime() < b.getTime()\<close>: a comparison
  with \<open>NaN\<close> is false.\<close>

definition diffExceeds :: "date \<Rightarrow> date \<Rightarrow> int \<Rightarrow> bool" where
  "diffExceeds e s m = (case (e, s) of (Some a, Some b) \<Rightarrow> a - b > m | _ \<Rightarrow> False)"

definition timeBefore :: "date \<Rightarrow> date \<Rightarrow> bool" where
  "timeBefore a b = (case (a, b) of (Some x, Some y) \<Rightarrow> x < y | _ \<Rightarrow> False)"

text \<open>\<open>x || d\<close> for an optional number: \<open>undefined\<close> and \<open>0\<close> are both falsy.\<close>

definition orDefault :: "int option \<Rightarrow> int \<Rightarrow> int" where
  "orDefault x d = (case x of None \<Rightarrow> d | Some n \<Rightarrow> if n = 0 then d else n)"

text \<open>\<open>s\<close> is truthy for an optional string: defined and not empty.\<close>

definition truthyStr :: "string option \<Rightarrow> bool" where
  "truthyStr s = (case s of None \<Rightarrow> False | Some x \<Rightarrow> x \<noteq> [])"

text \<open>\<open>shouldIncludeArchive\<close> reads the clock again: \<open>now\<close> is that reading.\<close>

definition shouldIncludeArchive :: "int \<Rightarrow> date \<Rightarrow> date \<Rightarrow> bool" where
  "shouldIncludeArchive now startTime endTime =
     (let oneDayAgo = newDate (now - 24 * 60 * 60 * 1000)
      in timeBefore startTime oneDayAgo)"

text \<open>The first three statements of \<open>buildQueryContext\<close>: the start and end of the range.
  \<open>dateParse\<close> is the runtime's \<open>Date.parse\<close> (\<open>None\<close> for \<open>NaN\<close>), \<open>now\<close> the clock.\<close>

definition resolveTimeRange ::
  "(string \<Rightarrow> int option) \<Rightarrow> int \<Rightarrow> QueryLogsInput \<Rightarrow> date \<times> date" where
  "resolveTimeRange dateParse now input =
     (case timeframe input of
        Some (Preset p) \<Rightarrow> (newDate (now - TIMEFRAME_MAP p), newDate now)
      | _ \<Rightarrow>
         if truthyStr (startDate input) \<and> truthyStr (endDate input)
         then (case dateParse (the (startDate input)) of None \<Rightarrow> None | Some t \<Rightarrow> newDate t,
               case dateParse (the (endDate input)) of None \<Rightarrow> None | Some t \<Rightarrow> newDate t)
         else (newDate (now - TIMEFRAME_MAP P1h), newDate now))"

definition resolveLimit :: "int option \<Rightarrow> int" where
  "resolveLimit l = min (max (orDefault l DEFAULT_LIMIT) MIN_LIMIT) MAX_LIMIT"

definition buildQueryContext ::
  "(string \<Rightarrow> int option) \<Rightarrow> int \<Rightarrow> int \<Rightarrow> QueryLogsInput \<Rightarrow> error + QueryContext" where
  "buildQueryContext dateParse now now' input =
     (let (startTime, endTime) = resolveTimeRange dateParse now input;
          maxTimeRange = MAX_TIME_WINDOW_HOURS * 60 * 60 * 1000
      in if diffExceeds endTime startTime maxTimeRange then Inl RangeTooWide
         else Inr \<lparr> originalQuery = query input,
                    detectedSyntax = detectQuerySyntax (query input),
                    timeRange_start = startTime,
                    timeRange_end = endTime,
                    limit_c = resolveLimit (limit input),
                    includeArchive = shouldIncludeArchive now' startTime endTime \<rparr>)"

definition optimizeLuceneQuery :: "string \<Rightarrow> string" where
  "optimizeLuceneQuery q =
     (let optimized = trim q
      in if optimized = ''*'' \<or> optimized = [] then optimized
         else if \<not> includes_str optimized '':'' \<and> \<not> includes_str optimized ''('' \<and> \<not> includes_str optimized [DQ]
              then [DQ] @ optimized @ [DQ]
              else optimized)"

definition optimizeDataPrimeQuery :: "string \<Rightarrow> string" where
  "optimizeDataPrimeQuery q =
     (let optimized = trim q
      in if \<not> includes_str (toLowerCase optimized) ''| limit''
         then optimized @ '' | limit '' @ showNat (nat MAX_LIMIT)
         else optimized)"

definition optimizeQuery :: "string \<Rightarrow> QuerySyntax \<Rightarrow> string" where
  "optimizeQuery q syntax =
     (if syntax = lucene then optimizeLuceneQuery q else optimizeDataPrimeQuery q)"

definition calculateOffset :: "int \<Rightarrow> int \<Rightarrow> int" where
  "calculateOffset p l = max 0 ((p - 1) * l)"

definition validatePagination :: "int option \<Rightarrow> int option \<Rightarrow> error + (int \<times> int)" where
  "validatePagination p l =
     (let validatedPage = max 1 (orDefault p 1);
          validatedLimit = min (max (orDefault l DEFAULT_LIMIT) MIN_LIMIT) MAX_LIMIT
      in if validatedPage > MAX_PAGES then Inl PageOutOfRange
         else Inr (validatedPage, validatedLimit))"

section \<open>\<open>CoralogixClient\<close>: \<open>utils/coralogix-client.ts\<close>\<close>

record CoralogixQueryRequest =
  query_r :: string
  syntax_r :: QuerySyntax
  startDate_r :: string
  endDate_r :: string
  limit_r :: int
  includeArchive_r :: bool

text \<open>A \<open>Response\<close> of \<open>fetch\<close>. Its \<open>body\<close> is what \<open>await response.text()\<close> gives:
  the text, or \<open>None\<close> when reading the body rejects (a transport-level failure while
  the body streams: connection reset, timeout).\<close>

record response =
  status :: nat
  body :: "string option"

text \<open>\<open>await fetch(url, options)\<close> either resolves to a response or rejects (a
  transport-level failure: connection reset, timeout).\<close>

datatype fetch_outcome = Resolved response | Rejected

text \<open>\<open>response.ok\<close>.\<close>

definition ok :: "response \<Rightarrow> bool" where
  "ok r = (200 \<le> status r \<and> status r \<le> 299)"

text \<open>
  \<open>makeRequestWithRetry\<close>. The network is the function \<open>fetch\<close>: \<open>fetch k\<close> is the
  outcome of the call to \<open>fetch\<close> made with \<open>retryCount = k\<close> (the same \<open>url\<close> and
  \<open>options\<close> are passed at every attempt). The result is the list of the delays slept,
  in order, with the response returned or the error thrown.
\<close>

function makeRequestWithRetry ::
  "(nat \<Rightarrow> fetch_outcome) \<Rightarrow> nat \<Rightarrow> nat list \<times> (error + response)" where
  "makeRequestWithRetry fetch retryCount =
     (case fetch retryCount of
        Resolved r \<Rightarrow>
          if (status r = 429 \<or> status r \<ge> 500) \<and> retryCount < MAX_RETRIES
          then (let delay = RETRY_DELAY_MS * 2 ^ retryCount;
                    (sleeps, res) = makeRequestWithRetry fetch (retryCount + 1)
                in (delay # sleeps, res))
          else ([], Inr r)
      | Rejected \<Rightarrow>
          if retryCount < MAX_RETRIES
          then (let delay = RETRY_DELAY_MS * 2 ^ retryCount;
                    (sleeps, res) = makeRequestWithRetry fetch (retryCount + 1)
                in (delay # sleeps, res))
          else ([], Inl TransportFailure))"
  by pat_completeness auto
termination
  by (relation "measure (\<lambda>(fetch, retryCount). MAX_RETRIES - retryCount)") auto

declare makeRequestWithRetry.simps [simp del]

text \<open>A value produced by \<open>JSON.parse\<close>. Of a number only its being zero is observed.\<close>

datatype json =
    JNull
  | JBool bool
  | JNum real
  | JStr string
  | JArr "json list"
  | JObj "(string \<times> json) list"

text \<open>Reading a property of a non-null value, for the keys the source reads
  (\<open>result\<close>, \<open>results\<close>, \<open>logs\<close>, \<open>queryId\<close>, \<open>length\<close>); \<open>None\<close> is \<open>undefined\<close>. In
  an object parsed from a text with a repeated key the last occurrence counts.\<close>

definition getProp :: "json \<Rightarrow> string \<Rightarrow> json option" where
  "getProp v k =
     (case v of
        JObj kvs \<Rightarrow> map_of (rev kvs) k
      | JArr xs \<Rightarrow> if k = ''length'' then Some (JNum (real (length xs))) else None
      | JStr s \<Rightarrow> if k = ''length'' then Some (JNum (real (length s))) else None
      | _ \<Rightarrow> None)"

definition truthy :: "json option \<Rightarrow> bool" where
  "truthy v =
     (case v of
        None \<Rightarrow> False
      | Some JNull \<Rightarrow> False
      | Some (JBool b) \<Rightarrow> b
      | Some (JNum x) \<Rightarrow> x \<noteq> 0
      | Some (JStr s) \<Rightarrow> s \<noteq> []
      | Some _ \<Rightarrow> True)"

text \<open>\<open>parsedObjects.find((obj) => obj.k)\<close>: reading a property of \<open>null\<close> raises a
  \<open>TypeError\<close>, here \<open>None\<close>; otherwise \<open>Some\<close> of what \<open>find\<close> returns.\<close>

fun findWith :: "string \<Rightarrow> json list \<Rightarrow> json option option" where
  "findWith k [] = Some None"
| "findWith k (obj # objs) =
     (if obj = JNull then None
      else if truthy (getProp obj k) then Some (Some obj)
      else findWith k objs)"

text \<open>\<open>parsedObjects[0]?.queryId?.queryId || "unknown"\<close>.\<close>

definition optChain :: "json option \<Rightarrow> string \<Rightarrow> json option" where
  "optChain v k = (case v of None \<Rightarrow> None | Some JNull \<Rightarrow> None | Some x \<Rightarrow> getProp x k)"

definition queryIdOf :: "json list \<Rightarrow> json" where
  "queryIdOf parsedObjects =
     (let q = optChain (optChain (case parsedObjects of [] \<Rightarrow> None | p # _ \<Rightarrow> Some p) ''queryId'')
                ''queryId''
      in if truthy q then the q else JStr ''unknown'')"

text \<open>\<open>lines.map((line) => JSON.parse(line))\<close>: the first line that does not parse
  raises. \<open>jsonParse\<close> is the runtime's \<open>JSON.parse\<close>, \<open>None\<close> for a \<open>SyntaxError\<close>.\<close>

fun parseLines :: "(string \<Rightarrow> json option) \<Rightarrow> string list \<Rightarrow> json list option" where
  "parseLines jsonParse [] = Some []"
| "parseLines jsonParse (l # ls) =
     (case jsonParse l of
        None \<Rightarrow> None
      | Some v \<Rightarrow> (case parseLines jsonParse ls of None \<Rightarrow> None | Some vs \<Rightarrow> Some (v # vs)))"

text \<open>The inner \<open>try\<close> block of \<open>queryLogs\<close>; its \<open>catch\<close> turns whatever was raised into
  the "Failed to parse Coralogix NDJSON response" error. The object returned is the
  response handed to the caller.\<close>

definition parseNdjson :: "(string \<Rightarrow> json option) \<Rightarrow> string \<Rightarrow> error + json" where
  "parseNdjson jsonParse responseText =
     (let lines = filter (\<lambda>line. trim line \<noteq> []) (split_LF (trim responseText))
      in case parseLines jsonParse lines of
           None \<Rightarrow> Inl MalformedResponse
         | Some parsedObjects \<Rightarrow>
            (case findWith ''result'' parsedObjects of
               None \<Rightarrow> Inl MalformedResponse
             | Some (Some resultObject) \<Rightarrow>
                 (let rs = (case getProp resultObject ''result'' of
                              None \<Rightarrow> None
                            | Some res \<Rightarrow> getProp res ''results'');
                      ls = (if truthy rs then the rs else JArr [])
                  in Inr (JObj ([(''logs'', ls)]
                            @ (case getProp ls ''length'' of None \<Rightarrow> [] | Some n \<Rightarrow> [(''total'', n)])
                            @ [(''hasMore'', JBool False),
                               (''queryId'', queryIdOf parsedObjects)])))
             | Some None \<Rightarrow>
                 (case findWith ''logs'' parsedObjects of
                    None \<Rightarrow> Inl MalformedResponse
                  | Some (Some resultObject) \<Rightarrow> Inr resultObject
                  | Some None \<Rightarrow>
                      Inr (JObj [(''logs'', JArr []), (''total'', JNum 0),
                                 (''hasMore'', JBool False),
                                 (''queryId'', queryIdOf parsedObjects)]))))"

text \<open>\<open>queryLogs\<close>: the delays slept, with the response object or the error. The body is
  read after \<open>makeRequestWithRetry\<close> has returned and before \<open>response.ok\<close> is tested; a
  failure there goes to the outer \<open>catch\<close> like every other error, which re-throws it with
  the prefix "Failed to query Coralogix".\<close>

definition queryLogs ::
  "(string \<Rightarrow> json option) \<Rightarrow> (CoralogixQueryRequest \<Rightarrow> nat \<Rightarrow> fetch_outcome) \<Rightarrow>
   CoralogixQueryRequest \<Rightarrow> nat list \<times> (error + json)" where
  "queryLogs jsonParse fetch request =
     (let (sleeps, res) = makeRequestWithRetry (fetch request) 0
      in case res of
           Inl e \<Rightarrow> (sleeps, Inl (FailedToQueryCoralogix e))
         | Inr response \<Rightarrow>
            (case body response of
               None \<Rightarrow> (sleeps, Inl (FailedToQueryCoralogix BodyReadFailed))
             | Some responseText \<Rightarrow>
                 if \<not> ok response
                 then (sleeps, Inl (FailedToQueryCoralogix (ApiError (status response))))
                 else (case parseNdjson jsonParse responseText of
                         Inl e \<Rightarrow> (sleeps, Inl (FailedToQueryCoralogix e))
                       | Inr v \<Rightarrow> (sleeps, Inr v))))"

section \<open>\<open>ResponseProcessor\<close>\<close>

definition stackTracePatterns :: "atom list list" where
  "stackTracePatterns =
    [ lit ''at'' @ oneOrMore isSpace
        @ oneOrMore (\<lambda>c. isWord c \<or> c = CHR ''$'' \<or> c = CHR ''.'' \<or> c = CHR ''<'' \<or> c = CHR ''>'')
        @ lit ''('' @ zeroOrMore (\<lambda>c. c \<noteq> CHR '')'') @ lit '')'',
      [LineStart] @ zeroOrMore isSpace @ lit ''at'' @ oneOrMore isSpace,
      litCI ''File'' @ oneOrMore isSpace @ lit [DQ] @ oneOrMore (\<lambda>c. c \<noteq> DQ) @ lit [DQ] @ lit '',''
        @ oneOrMore isSpace @ litCI ''line'' @ oneOrMore isSpace @ oneOrMore isDigit,
      [LineStart] @ zeroOrMore isSpace @ oneOrMore isWord @ lit ''Error:'',
      [LineStart] @ zeroOrMore isSpace @ lit ''Caused by:'',
      [LineStart] @ zeroOrMore isSpace @ lit ''...'' @ oneOrMore isSpace @ oneOrMore isDigit @ oneOrMore isSpace
        @ lit ''more'' ]"

definition isStackTrace :: "string \<Rightarrow> bool" where
  "isStackTrace text = some (\<lambda>pattern. test pattern text) stackTracePatterns"

definition truncateStackTrace :: "string \<Rightarrow> string" where
  "truncateStackTrace text =
     (let lines = split_LF text;
          maxLines = MAX_STACK_TRACE_LINES;
          errorLine = (case lines of [] \<Rightarrow> [] | l # _ \<Rightarrow> l);
          stackLines = slice lines 1 maxLines;
          remainingLines = int (length lines) - int maxLines;
          truncatedStack = join_LF stackLines
      in if remainingLines > 0
         then errorLine @ [LF] @ truncatedStack @ [LF] @ ''... and ''
                @ showNat (nat remainingLines) @ '' more lines''
         else errorLine @ [LF] @ truncatedStack)"

text \<open>\<open>Math.floor(maxLength * 0.7)\<close> is 700 for the maximum of 1000.\<close>

definition intelligentTruncate :: "string \<Rightarrow> string" where
  "intelligentTruncate text =
     (let maxLength = MAX_MESSAGE_LENGTH
      in if isStackTrace text then truncateStackTrace text
         else if length text > maxLength
         then (let preserveStart = (maxLength * 7) div 10;
                   preserveEnd = maxLength - preserveStart - 10
               in take preserveStart text @ '' ... '' @ drop (length text - preserveEnd) text)
         else text)"

definition processMessage :: "string \<Rightarrow> string" where
  "processMessage text =
     (if text = [] then []
      else (let processed = trim text
            in if length processed > MAX_MESSAGE_LENGTH then intelligentTruncate processed
               else processed))"

record summary =
  totalResults :: int
  resultsShown :: nat
  timeRange_start_s :: string
  timeRange_end_s :: string
  page_s :: int
  hasNextPage :: bool
  queryType :: QuerySyntax

record pagination =
  currentPage :: int
  nextPageAvailable :: bool

record 'e QueryLogsOutput =
  summary :: summary
  logs :: "'e list"
  pagination :: pagination

text \<open>
  \<open>processLogs\<close>. \<open>toISOString\<close> is the runtime's rendering of a valid time value; on an
  Invalid Date it raises a \<open>RangeError\<close>. \<open>processLogEntry\<close> is the projection applied
  to each record; the summary and pagination blocks do not read its result.
\<close>

definition processLogs ::
  "(int \<Rightarrow> string) \<Rightarrow> ('l \<Rightarrow> 'e) \<Rightarrow> 'l list \<Rightarrow> QueryContext \<Rightarrow> int \<Rightarrow> int option \<Rightarrow>
   error + 'e QueryLogsOutput" where
  "processLogs toISOString processLogEntry ls context pg totalRes =
     (let processedLogs = map processLogEntry ls
      in case (timeRange_start context, timeRange_end context) of
           (Some s, Some e) \<Rightarrow>
             Inr \<lparr> summary =
                     \<lparr> totalResults = orDefault totalRes (int (length ls)),
                       resultsShown = length processedLogs,
                       timeRange_start_s = toISOString s,
                       timeRange_end_s = toISOString e,
                       page_s = pg,
                       hasNextPage = (int (length ls) = limit_c context),
                       queryType = detectedSyntax context \<rparr>,
                   logs = processedLogs,
                   pagination =
                     \<lparr> currentPage = pg,
                       nextPageAvailable = (int (length ls) = limit_c context) \<rparr> \<rparr>
         | _ \<Rightarrow> Inl InvalidTimeValue)"

section \<open>The tool \<open>query_logs\<close>: \<open>tools/query-logs.ts\<close>\<close>

text \<open>\<open>CoralogixQueryResponse\<close> as the interface declares it; \<open>logs\<close> may be absent
  (\<open>response.logs || []\<close>).\<close>

record 'l CoralogixQueryResponse =
  logs_r :: "'l list option"
  total_r :: "int option"

text \<open>
  \<open>executeQueryLogs\<close>. The client is the function \<open>client\<close>; the result carries the list
  of the requests sent to it, so that a failure before the remote call has the empty list.
\<close>

definition executeQueryLogs ::
  "(string \<Rightarrow> int option) \<Rightarrow> (int \<Rightarrow> string) \<Rightarrow> int \<Rightarrow> int \<Rightarrow> ('l \<Rightarrow> 'e) \<Rightarrow>
   (CoralogixQueryRequest \<Rightarrow> error + 'l CoralogixQueryResponse) \<Rightarrow> QueryLogsInput \<Rightarrow>
   CoralogixQueryRequest list \<times> (error + 'e QueryLogsOutput)" where
  "executeQueryLogs dateParse toISOString now now' processLogEntry client input =
     (case buildQueryContext dateParse now now' input of
        Inl e \<Rightarrow> ([], Inl (FailedToQueryLogs e))
      | Inr context \<Rightarrow>
         (case validatePagination (page input) (limit input) of
            Inl e \<Rightarrow> ([], Inl (FailedToQueryLogs e))
          | Inr (pg, lmt) \<Rightarrow>
             (let offset = calculateOffset pg lmt;
                  optimizedQuery = optimizeQuery (originalQuery context) (detectedSyntax context)
              in case (timeRange_start context, timeRange_end context) of
                   (Some s, Some e) \<Rightarrow>
                     (let coralogixRequest =
                            \<lparr> query_r = optimizedQuery,
                              syntax_r = detectedSyntax context,
                              startDate_r = toISOString s,
                              endDate_r = toISOString e,
                              limit_r = lmt + offset,
                              includeArchive_r = includeArchive context \<rparr>
                      in case client coralogixRequest of
                           Inl err \<Rightarrow> ([coralogixRequest], Inl (FailedToQueryLogs err))
                         | Inr response \<Rightarrow>
                            (let ls = (case logs_r response of None \<Rightarrow> [] | Some xs \<Rightarrow> xs);
                                 paginatedLogs = slice ls (nat offset) (nat (offset + lmt))
                             in case processLogs toISOString processLogEntry paginatedLogs
                                       context pg (total_r response) of
                                  Inl err \<Rightarrow> ([coralogixRequest], Inl (FailedToQueryLogs err))
                                | Inr out \<Rightarrow> ([coralogixRequest], Inr out)))
                 | _ \<Rightarrow> ([], Inl (FailedToQueryLogs InvalidTimeValue)))))"

text \<open>\<open>new Date(s)\<close> for a string \<open>s\<close> inside a \<open>try\<close> block: the constructor returns
  normally for every string, with an Invalid Date when \<open>Date.parse\<close> gives \<open>NaN\<close>.\<close>

definition newDateOfString :: "(string \<Rightarrow> int option) \<Rightarrow> string \<Rightarrow> error + date" where
  "newDateOfString dateParse s = Inr (case dateParse s of None \<Rightarrow> None | Some t \<Rightarrow> newDate t)"

text \<open>
  The handler returned by \<open>createQueryLogsHandler\<close>. Its argument is \<open>None\<close> when the
  input is not an object or has no \<open>query\<close> key; the \<open>query\<close> of a \<open>QueryLogsInput\<close> is a
  string, so the second check fails for the empty string.
\<close>

definition createQueryLogsHandler ::
  "(string \<Rightarrow> int option) \<Rightarrow> (int \<Rightarrow> string) \<Rightarrow> int \<Rightarrow> int \<Rightarrow> ('l \<Rightarrow> 'e) \<Rightarrow>
   (CoralogixQueryRequest \<Rightarrow> error + 'l CoralogixQueryResponse) \<Rightarrow> QueryLogsInput option \<Rightarrow>
   CoralogixQueryRequest list \<times> (error + 'e QueryLogsOutput)" where
  "createQueryLogsHandler dateParse toISOString now now' processLogEntry client input =
     (case input of
        None \<Rightarrow> ([], Inl (InvalidInput QueryRequired))
      | Some queryInput \<Rightarrow>
         if query queryInput = [] then ([], Inl (InvalidInput QueryNotNonEmptyString))
         else if timeframe queryInput = Some Custom
         then (if \<not> truthyStr (startDate queryInput) \<or> \<not> truthyStr (endDate queryInput)
               then ([], Inl (InvalidInput CustomDatesRequired))
               else (case newDateOfString dateParse (the (startDate queryInput)) of
                       Inl _ \<Rightarrow> ([], Inl (InvalidInput DatesNotISO8601))
                     | Inr _ \<Rightarrow>
                        (case newDateOfString dateParse (the (endDate queryInput)) of
                           Inl _ \<Rightarrow> ([], Inl (InvalidInput DatesNotISO8601))
                         | Inr _ \<Rightarrow>
                            executeQueryLogs dateParse toISOString now now' processLogEntry
                              client queryInput)))
         else executeQueryLogs dateParse toISOString now now' processLogEntry client queryInput)"

section \<open>The specification's wording, and example inputs\<close>

text \<open>The specification resolves the limit as
  \<open>clamp(requested_limit ?? default_limit, min_limit, max_limit)\<close>.\<close>

definition clamp :: "int \<Rightarrow> int \<Rightarrow> int \<Rightarrow> int" where
  "clamp x lo hi = min (max x lo) hi"

definition resolveLimit_spec :: "int option \<Rightarrow> int" where
  "resolveLimit_spec requested =
     clamp (case requested of None \<Rightarrow> DEFAULT_LIMIT | Some n \<Rightarrow> n) MIN_LIMIT MAX_LIMIT"

definition exampleInput :: "int option \<Rightarrow> QueryLogsInput" where
  "exampleInput l = \<lparr> query = ''level:ERROR'', timeframe = Some (Preset P1h), startDate = None,
      endDate = None, limit = l, page = None \<rparr>"

definition exampleContext :: QueryContext where
  "exampleContext = \<lparr> originalQuery = ''level:ERROR'', detectedSyntax = lucene,
      timeRange_start = Some 1705312800000, timeRange_end = Some 1705316400000,
      limit_c = 2, includeArchive = False \<rparr>"

text \<open>\<open>Date.parse\<close> on the strings of the examples: two ISO-8601 timestamps, and
  \<open>NaN\<close> for the others.\<close>

definition exampleDateParse :: "string \<Rightarrow> int option" where
  "exampleDateParse s =
     (if s = ''2024-01-15T10:00:00Z'' then Some 1705312800000
      else if s = ''2024-01-15T11:00:00Z'' then Some 1705316400000
      else None)"

definition customInput :: "string option \<Rightarrow> string option \<Rightarrow> QueryLogsInput" where
  "customInput sd ed = \<lparr> query = ''level:ERROR'', timeframe = Some Custom, startDate = sd,
      endDate = ed, limit = None, page = None \<rparr>"

text \<open>A server that answers 503 twice and then 200 with the body \<open>{}\<close>, a request, and
  \<open>JSON.parse\<close> on the texts of the examples.\<close>

definition exampleFetch :: "nat \<Rightarrow> fetch_outcome" where
  "exampleFetch k = Resolved \<lparr> status = (if k < 2 then 503 else 200), body = Some ''{}'' \<rparr>"

definition exampleRequest :: CoralogixQueryRequest where
  "exampleRequest = \<lparr> query_r = ''level:ERROR'', syntax_r = lucene,
      startDate_r = ''2024-01-15T10:00:00.000Z'', endDate_r = ''2024-01-15T11:00:00.000Z'',
      limit_r = 20, includeArchive_r = False \<rparr>"

definition exampleJsonParse :: "string \<Rightarrow> json option" where
  "exampleJsonParse s =
     (if s = ''null'' then Some JNull
      else if s = ''{}'' then Some (JObj [])
      else if s = ''[]'' then Some (JArr [])
      else None)"

text \<open>The specification truncates a stack trace to its first line, up to 5 lines after
  it, and a marker counting the lines left out.\<close>

definition truncateStackTrace_spec :: "string \<Rightarrow> string" where
  "truncateStackTrace_spec text =
     (let lines = split_LF text;
          errorLine = hd lines;
          stackLines = take 5 (tl lines);
          omitted = drop 6 lines
      in errorLine @ [LF] @ join_LF stackLines
           @ (if omitted = [] then []
              else [LF] @ ''... and '' @ showNat (length omitted) @ '' more lines''))"

text \<open>A stack trace of six lines, longer than 1000 characters.\<close>

definition filler :: string where
  "filler = replicate 1000 CHR ''x''"

definition stackTraceExample :: string where
  "stackTraceExample =
     ''TypeError: '' @ filler @ [LF] @ ''    at a (a.js:1)'' @ [LF] @ ''    at b (b.js:2)''
       @ [LF] @ ''    at c (c.js:3)'' @ [LF] @ ''    at d (d.js:4)'' @ [LF]
       @ ''    at e (e.js:5)''"

section \<open>The resolved limit\<close>

lemma buildQueryContext_limit:
  "buildQueryContext dp now now' inp = Inr c \<Longrightarrow> limit_c c = resolveLimit (limit inp)"
  by (auto simp: buildQueryContext_def Let_def split: prod.splits if_splits)

lemma validatePagination_limit:
  "validatePagination p l = Inr (pg, lm) \<Longrightarrow> lm = resolveLimit l"
  by (auto simp: validatePagination_def resolveLimit_def Let_def split: if_splits)

text \<open>
  Claim C1, as stated, fails: a requested limit of 0 is falsy for \<open>||\<close>, so it is replaced
  by the default 20 before clamping, in \<open>validatePagination\<close> and in \<open>buildQueryContext\<close>
  alike, while \<open>clamp(0 ?? 20, 1, 50)\<close> is 1.
\<close>

theorem C1_limit_zero_counterexample:
  "validatePagination None (Some 0) = Inr (1, 20) \<and> resolveLimit_spec (Some 0) = 1
   \<and> (case buildQueryContext (\<lambda>s. None) 0 0 (exampleInput (Some 0)) of
         Inl e \<Rightarrow> False | Inr c \<Rightarrow> limit_c c = 20)"
  by code_simp

text \<open>
  Claim C1, amended: whenever \<open>validatePagination\<close> or \<open>buildQueryContext\<close> returns, the
  resolved limit is \<open>clamp(l, 1, 50)\<close> where \<open>l\<close> is the requested limit if it is given and
  not 0, and the default 20 otherwise; a requested 200 resolves to 50, a requested 0 to 20.
\<close>

theorem C1_resolved_limit:
  "(validatePagination p l = Inr (pg, lm) \<longrightarrow>
      lm = clamp (if l = None \<or> l = Some 0 then 20 else the l) 1 50)
   \<and> (buildQueryContext dp now now' inp = Inr c \<longrightarrow>
      limit_c c = clamp (if limit inp = None \<or> limit inp = Some 0 then 20 else the (limit inp)) 1 50)
   \<and> resolveLimit (Some 200) = 50 \<and> resolveLimit (Some 0) = 20 \<and> resolveLimit None = 20"
  by (auto dest!: buildQueryContext_limit validatePagination_limit
        simp: resolveLimit_def clamp_def orDefault_def DEFAULT_LIMIT_def MIN_LIMIT_def MAX_LIMIT_def)

theorem C1_resolved_limit_witness:
  "validatePagination None (Some 200) = Inr (1, 50) \<and> (50::int) = clamp 200 1 50"
proof -
  have h: "validatePagination None (Some 200) = Inr (1, 50)" by code_simp
  from C1_resolved_limit [of None "Some 200" 1 50] h show ?thesis by simp
qed

section \<open>The time range\<close>

text \<open>
  Claim C4: \<open>buildQueryContext\<close> fails, with \<open>RangeTooWide\<close>, exactly when the resolved end
  minus the resolved start exceeds 24 hours, whichever branch (preset, explicit dates,
  default) resolved the range; otherwise it returns a context whose range is the resolved
  one. For two valid dates the test is \<open>end - start > 86400000\<close>.
\<close>

theorem C4_range_too_wide:
  "(buildQueryContext dp now now' inp = Inl RangeTooWide)
     = diffExceeds (snd (resolveTimeRange dp now inp)) (fst (resolveTimeRange dp now inp))
         (24 * 60 * 60 * 1000)
   \<and> (\<exists>c. buildQueryContext dp now now' inp = Inr c
            \<and> (timeRange_start c, timeRange_end c) = resolveTimeRange dp now inp)
     = (\<not> diffExceeds (snd (resolveTimeRange dp now inp)) (fst (resolveTimeRange dp now inp))
         (24 * 60 * 60 * 1000))
   \<and> diffExceeds (Some en) (Some st) (24 * 60 * 60 * 1000) = (en - st > 24 * 60 * 60 * 1000)"
proof (cases "resolveTimeRange dp now inp")
  case (Pair s e)
  then show ?thesis
    by (simp add: buildQueryContext_def Let_def MAX_TIME_WINDOW_HOURS_def diffExceeds_def)
qed

theorem C4_range_too_wide_witness:
  "buildQueryContext exampleDateParse 1705320000000 1705320000000
       (customInput (Some ''2024-01-15T10:00:00Z'') (Some ''2024-01-15T11:00:00Z''))
     \<noteq> Inl RangeTooWide
   \<and> buildQueryContext (\<lambda>s. if s = ''a'' then Some 0 else Some 86400001) 1705320000000
       1705320000000 (customInput (Some ''a'') (Some ''b''))
     = Inl RangeTooWide"
  using C4_range_too_wide [of exampleDateParse 1705320000000 1705320000000
          "customInput (Some ''2024-01-15T10:00:00Z'') (Some ''2024-01-15T11:00:00Z'')"]
        C4_range_too_wide [of "\<lambda>s. if s = ''a'' then Some 0 else Some 86400001" 1705320000000
          1705320000000 "customInput (Some ''a'') (Some ''b'')"]
  by (simp add: resolveTimeRange_def customInput_def truthyStr_def exampleDateParse_def
        newDate_def diffExceeds_def)

lemma preset_never_too_wide:
  "timeframe inp = Some (Preset p) \<Longrightarrow> \<exists>c. buildQueryContext dp now now' inp = Inr c"
  by (cases p) (auto simp: buildQueryContext_def Let_def MAX_TIME_WINDOW_HOURS_def diffExceeds_def
      resolveTimeRange_def newDate_def split: option.splits)

section \<open>The next-page heuristic\<close>

text \<open>
  Claim C8: for a context with a valid time range \<open>processLogs\<close> returns a result, and in
  it \<open>summary.hasNextPage\<close> and \<open>pagination.nextPageAvailable\<close> are true exactly when the
  number of records passed in equals the limit of the context, whatever total the server
  reported.
\<close>

theorem C8_hasNextPage:
  assumes "timeRange_start ctx = Some s" and "timeRange_end ctx = Some e"
  shows "\<exists>out. processLogs toISO ple ls ctx pg tot = Inr out
           \<and> hasNextPage (summary out) = (int (length ls) = limit_c ctx)
           \<and> nextPageAvailable (pagination out) = (int (length ls) = limit_c ctx)"
  using assms by (simp add: processLogs_def Let_def)

theorem C8_hasNextPage_witness:
  "hasNextPage (summary (projr (processLogs (\<lambda>t. ''t'') id [''a'', ''b''] exampleContext 1 (Some 900))))
   \<and> \<not> hasNextPage (summary (projr (processLogs (\<lambda>t. ''t'') id [''a''] exampleContext 1 (Some 900))))"
proof -
  have s: "timeRange_start exampleContext = Some 1705312800000"
    and e: "timeRange_end exampleContext = Some 1705316400000"
    and l: "limit_c exampleContext = 2"
    by (simp_all add: exampleContext_def)
  from C8_hasNextPage [OF s e, of "\<lambda>t. ''t''" id "[''a'', ''b'']" 1 "Some 900"]
       C8_hasNextPage [OF s e, of "\<lambda>t. ''t''" id "[''a'']" 1 "Some 900"] l
  show ?thesis by auto
qed

section \<open>Validation of a custom time range\<close>

lemma custom_dates_missing:
  "query qi \<noteq> [] \<Longrightarrow> timeframe qi = Some Custom
   \<Longrightarrow> \<not> truthyStr (startDate qi) \<or> \<not> truthyStr (endDate qi)
   \<Longrightarrow> createQueryLogsHandler dp toISO now now' ple client (Some qi)
       = ([], Inl (InvalidInput CustomDatesRequired))"
  by (auto simp: createQueryLogsHandler_def)

lemma custom_dates_parsed:
  assumes "timeframe qi = Some Custom" and "startDate qi = Some sd" and "endDate qi = Some ed"
    and "sd \<noteq> []" and "ed \<noteq> []" and "dp sd = Some a" and "dp ed = Some b"
    and "buildQueryContext dp now now' qi = Inr c"
  shows "timeRange_start c = newDate a \<and> timeRange_end c = newDate b"
  using assms
  by (auto simp: buildQueryContext_def resolveTimeRange_def truthyStr_def Let_def
        split: if_splits)

text \<open>
  Claim C3 at a custom range whose start date does not parse: the handler does not reject
  the input as invalid; the context is built with an Invalid Date, and the operation fails
  only when \<open>toISOString\<close> raises on it, with the error of \<open>executeQueryLogs\<close> ("Failed to
  query logs: Invalid time value"). No request has been sent.
\<close>

theorem C3_unparsable_date_not_invalid_input:
  "createQueryLogsHandler exampleDateParse toISO now now' ple client
     (Some (customInput (Some ''not-a-date'') (Some ''2024-01-15T11:00:00Z'')))
   = ([], Inl (FailedToQueryLogs InvalidTimeValue))"
  by (simp add: createQueryLogsHandler_def customInput_def truthyStr_def newDateOfString_def
        executeQueryLogs_def buildQueryContext_def resolveTimeRange_def exampleDateParse_def
        diffExceeds_def newDate_def validatePagination_def orDefault_def Let_def
        DEFAULT_LIMIT_def MIN_LIMIT_def MAX_LIMIT_def MAX_PAGES_def)

theorem C3_unparsable_date_not_invalid_input_witness:
  "createQueryLogsHandler exampleDateParse (\<lambda>t. []) 0 0 id (\<lambda>r. Inl TransportFailure)
     (Some (customInput (Some ''not-a-date'') (Some ''2024-01-15T11:00:00Z'')))
   = ([], Inl (FailedToQueryLogs InvalidTimeValue))"
  by (rule C3_unparsable_date_not_invalid_input)

text \<open>
  Claim C10: the handler never fails with the error of its date-format check, because
  constructing a \<open>Date\<close> from a string returns normally for every string; a custom range
  with both dates given and a non-empty query goes on to \<open>executeQueryLogs\<close> whether or not
  the dates parse.
\<close>

theorem C10_date_check_unreachable:
  "snd (createQueryLogsHandler dp toISO now now' ple client inp) \<noteq> Inl (InvalidInput DatesNotISO8601)
   \<and> (\<forall>s. \<exists>d. newDateOfString dp s = Inr d)
   \<and> (timeframe qi = Some Custom \<and> query qi \<noteq> [] \<and> truthyStr (startDate qi) \<and> truthyStr (endDate qi)
        \<longrightarrow> createQueryLogsHandler dp toISO now now' ple client (Some qi)
             = executeQueryLogs dp toISO now now' ple client qi)"
  by (auto simp: createQueryLogsHandler_def newDateOfString_def executeQueryLogs_def Let_def
        split: option.splits sum.splits prod.splits if_splits)

theorem C10_date_check_unreachable_witness:
  "createQueryLogsHandler exampleDateParse (\<lambda>t. []) 0 0 id (\<lambda>r. Inl TransportFailure)
     (Some (customInput (Some ''garbage'') (Some ''also garbage'')))
   = executeQueryLogs exampleDateParse (\<lambda>t. []) 0 0 id (\<lambda>r. Inl TransportFailure)
       (customInput (Some ''garbage'') (Some ''also garbage''))"
proof -
  have h: "timeframe (customInput (Some ''garbage'') (Some ''also garbage'')) = Some Custom
      \<and> query (customInput (Some ''garbage'') (Some ''also garbage'')) \<noteq> []
      \<and> truthyStr (startDate (customInput (Some ''garbage'') (Some ''also garbage'')))
      \<and> truthyStr (endDate (customInput (Some ''garbage'') (Some ''also garbage'')))"
    by (simp add: customInput_def truthyStr_def)
  from C10_date_check_unreachable
         [of exampleDateParse "\<lambda>t. []" 0 0 id "\<lambda>r. Inl TransportFailure" None
             "customInput (Some ''garbage'') (Some ''also garbage'')"] h
  show ?thesis by blast
qed

section \<open>Retry and backoff\<close>










section \<open>Parsing the response\<close>

lemma findWith_none:
  "\<forall>obj \<in> set objs. obj \<noteq> JNull \<and> \<not> truthy (getProp obj k) \<Longrightarrow> findWith k objs = Some None"
  by (induction objs) auto

text \<open>
  Claim C9, as stated, fails for a line that parses to \<open>null\<close>: the text \<open>null\<close> is
  well-formed JSON with no \<open>result\<close> and no \<open>logs\<close> key, but reading \<open>obj.result\<close> of it
  raises, and \<open>queryLogs\<close> fails with the parse error.
\<close>

theorem C9_null_line_counterexample:
  "parseLines exampleJsonParse [''null''] = Some [JNull]
   \<and> getProp JNull ''result'' = None \<and> getProp JNull ''logs'' = None
   \<and> queryLogs exampleJsonParse (\<lambda>req k. Resolved \<lparr> status = 200, body = Some ''null'' \<rparr>)
        exampleRequest
      = ([], Inl (FailedToQueryCoralogix MalformedResponse))"
  by code_simp

text \<open>
  Claim C9, amended: when the request ends with a successful response whose body is read
  and whose non-blank lines all parse, to values none of which is \<open>null\<close> and none of which has a truthy
  \<open>result\<close> or \<open>logs\<close> property (in particular when none has such a key), \<open>queryLogs\<close>
  returns the object with the empty list of logs and the total 0.
\<close>

theorem C9_empty_result:
  assumes "makeRequestWithRetry (fetch req) 0 = (sl, Inr r)" and "ok r"
    and "body r = Some responseText"
    and "parseLines jp (filter (\<lambda>line. trim line \<noteq> []) (split_LF (trim responseText)))
         = Some objs"
    and "\<forall>obj \<in> set objs. obj \<noteq> JNull \<and> \<not> truthy (getProp obj ''result'')
                            \<and> \<not> truthy (getProp obj ''logs'')"
  shows "queryLogs jp fetch req
         = (sl, Inr (JObj [(''logs'', JArr []), (''total'', JNum 0), (''hasMore'', JBool False),
                           (''queryId'', queryIdOf objs)]))"
proof -
  have "findWith ''result'' objs = Some None" and "findWith ''logs'' objs = Some None"
    using assms(5) by (simp_all add: findWith_none)
  then have "parseNdjson jp responseText
      = Inr (JObj [(''logs'', JArr []), (''total'', JNum 0), (''hasMore'', JBool False),
                   (''queryId'', queryIdOf objs)])"
    using assms(4) by (simp add: parseNdjson_def Let_def)
  then show ?thesis
    using assms(1,2,3) by (simp add: queryLogs_def)
qed

theorem C9_empty_result_witness:
  "queryLogs exampleJsonParse (\<lambda>req. exampleFetch) exampleRequest
   = ([1000, 2000], Inr (JObj [(''logs'', JArr []), (''total'', JNum 0), (''hasMore'', JBool False),
                    (''queryId'', JStr ''unknown'')]))"
proof -
  have h1: "makeRequestWithRetry ((\<lambda>req. exampleFetch) exampleRequest) 0
            = ([1000, 2000], Inr \<lparr> status = 200, body = Some ''{}'' \<rparr>)"
    by code_simp
  have h2: "ok \<lparr> status = 200, body = Some ''{}'' \<rparr>"
    by (simp add: ok_def)
  have hb: "body \<lparr> status = 200, body = Some ''{}'' \<rparr> = Some ''{}''"
    by simp
  have h3: "parseLines exampleJsonParse
              (filter (\<lambda>line. trim line \<noteq> []) (split_LF (trim ''{}'')))
            = Some [JObj []]"
    by code_simp
  have h4: "\<forall>obj \<in> set [JObj []]. obj \<noteq> JNull \<and> \<not> truthy (getProp obj ''result'')
                            \<and> \<not> truthy (getProp obj ''logs'')"
    by (simp add: getProp_def truthy_def)
  have q: "queryIdOf [JObj []] = JStr ''unknown''"
    by (simp add: queryIdOf_def optChain_def getProp_def truthy_def)
  from C9_empty_result [OF h1 h2 hb h3 h4] q show ?thesis by simp
qed

section \<open>Strings and patterns\<close>

lemma some_iff: "some P xs = (\<exists>x \<in> set xs. P x)"
  by (induction xs) auto

lemma all_dropWhile: "(\<forall>c \<in> set (dropWhile P s). P c) = (\<forall>c \<in> set s. P c)"
proof
  assume a: "\<forall>c \<in> set (dropWhile P s). P c"
  have "dropWhile P s = []"
  proof (rule ccontr)
    assume "dropWhile P s \<noteq> []"
    then have "\<not> P (hd (dropWhile P s))" and "hd (dropWhile P s) \<in> set (dropWhile P s)"
      by (simp_all add: hd_dropWhile)
    with a show False by blast
  qed
  then show "\<forall>c \<in> set s. P c" by (simp add: dropWhile_eq_Nil_conv)
next
  assume "\<forall>c \<in> set s. P c"
  then show "\<forall>c \<in> set (dropWhile P s). P c" by (meson set_dropWhileD)
qed

lemma trim_Nil_iff: "(trim s = []) = (\<forall>c \<in> set s. isSpace c)"
proof -
  have "(trim s = []) = (\<forall>c \<in> set (rev (dropWhile isSpace s)). isSpace c)"
    by (simp add: trim_def dropWhile_eq_Nil_conv)
  then show ?thesis by (simp add: all_dropWhile)
qed

lemma dropWhile_id: "xs \<noteq> [] \<Longrightarrow> \<not> P (hd xs) \<Longrightarrow> dropWhile P xs = xs"
  by (cases xs) auto

lemma trim_id:
  assumes "s \<noteq> []" and "\<not> isSpace (hd s)" and "\<not> isSpace (last s)"
  shows "trim s = s"
proof -
  have "dropWhile isSpace s = s"
    using assms(1,2) by (rule dropWhile_id)
  moreover have "dropWhile isSpace (rev s) = rev s"
    using assms(1,3) by (intro dropWhile_id) (simp_all add: hd_rev)
  ultimately show ?thesis by (simp add: trim_def)
qed

lemma last_dropWhile: "dropWhile P xs \<noteq> [] \<Longrightarrow> last (dropWhile P xs) = last xs"
  by (induction xs) (auto split: if_splits)

lemma trim_hd_last:
  assumes "trim s \<noteq> []"
  shows "\<not> isSpace (hd (trim s)) \<and> \<not> isSpace (last (trim s))"
proof -
  define d where "d = dropWhile isSpace s"
  define r where "r = dropWhile isSpace (rev d)"
  have t: "trim s = rev r" by (simp add: trim_def r_def d_def)
  with assms have r: "r \<noteq> []" by simp
  then have "\<not> isSpace (hd r)" unfolding r_def by (simp add: hd_dropWhile)
  then have l: "\<not> isSpace (last (trim s))" using r t by (simp add: last_rev)
  from r have d: "d \<noteq> []" unfolding r_def by auto
  have "last r = last (rev d)" using r unfolding r_def by (simp add: last_dropWhile)
  also have "\<dots> = hd d" using d by (simp add: last_rev)
  finally have "hd (trim s) = hd d" using r t by (simp add: hd_rev)
  moreover have "\<not> isSpace (hd d)" using d unfolding d_def by (simp add: hd_dropWhile)
  ultimately show ?thesis using l by simp
qed

lemma trim_trim: "trim (trim s) = trim s"
proof (cases "trim s = []")
  case True
  show ?thesis unfolding True by (simp add: trim_def)
next
  case False
  then show ?thesis using trim_hd_last [OF False] by (simp add: trim_id)
qed

lemma includes_single: "includes_str s [c] = (c \<in> set s)"
  by (induction s) auto

lemma includes_appendI: "includes_str b sub \<Longrightarrow> includes_str (a @ b) sub"
  by (induction a) auto

subsection \<open>Characters\<close>

lemma isSpace_code: "isSpace c \<Longrightarrow> (of_char c :: nat) \<in> {9, 10, 11, 12, 13, 32, 160}"
  by (auto simp: isSpace_def)

lemma isSpace_not_letter: "isSpace c \<Longrightarrow> \<not> isLowerAscii c \<and> \<not> isUpperAscii c \<and> \<not> isWord c"
  by (drule isSpace_code) (auto simp: isLowerAscii_def isUpperAscii_def isWord_def isDigit_def)

lemma asciiUpper_letter:
  assumes "isLowerAscii p" and "asciiUpper c = asciiUpper p"
  shows "isLowerAscii c \<or> isUpperAscii c"
proof (cases "isLowerAscii c")
  case True
  then show ?thesis by simp
next
  case False
  with assms have "c = char_of ((of_char p :: nat) - 32)"
    by (simp add: asciiUpper_def)
  then have "(of_char c :: nat) = (of_char p - 32) mod 256" by simp
  with assms(1) show ?thesis
    by (auto simp: isLowerAscii_def isUpperAscii_def Let_def)
qed

lemma asciiUpper_word: "isLowerAscii p \<Longrightarrow> asciiUpper c = asciiUpper p \<Longrightarrow> isWord c"
  using asciiUpper_letter [of p c] by (auto simp: isWord_def)

lemma asciiUpper_not_space: "isLowerAscii p \<Longrightarrow> asciiUpper c = asciiUpper p \<Longrightarrow> \<not> isSpace c"
  using asciiUpper_letter [of p c] isSpace_not_letter [of c] by blast

subsection \<open>The matcher\<close>

lemma matchAtoms_needs:
  "matchAtoms as prev s \<Longrightarrow> One P \<in> set as \<Longrightarrow> \<exists>c \<in> set s. P c"
  by (induction as prev s rule: matchAtoms.induct) (auto split: if_splits)

lemma searchFrom_needs:
  "searchFrom as prev s \<Longrightarrow> One P \<in> set as \<Longrightarrow> \<exists>c \<in> set s. P c"
proof (induction s arbitrary: prev)
  case Nil
  then show ?case using matchAtoms_needs [of as prev "[]" P] by simp
next
  case (Cons c cs)
  then show ?case using matchAtoms_needs [of as prev "c # cs" P] by (auto split: if_splits)
qed

lemma test_needs: "test as s \<Longrightarrow> One P \<in> set as \<Longrightarrow> \<exists>c \<in> set s. P c"
  unfolding test_def by (rule searchFrom_needs)

lemma searchFrom_append:
  "matchAtoms as (if a = [] then prev else Some (last a)) s \<Longrightarrow> searchFrom as prev (a @ s)"
proof (induction a arbitrary: prev)
  case Nil
  then show ?case by (cases s) auto
next
  case (Cons x a)
  then show ?case by (auto split: if_splits)
qed

lemma matchAtoms_Many:
  "\<forall>c \<in> set ws. P c \<Longrightarrow> matchAtoms as (if ws = [] then prev else Some (last ws)) s
   \<Longrightarrow> matchAtoms (Many P # as) prev (ws @ s)"
proof (induction ws arbitrary: prev)
  case Nil
  then show ?case by (cases s) auto
next
  case (Cons w ws)
  then show ?case by (auto split: if_splits)
qed

lemma matchAtoms_litCI:
  "map asciiUpper kw = map asciiUpper k
   \<Longrightarrow> matchAtoms (litCI k @ as) prev (kw @ s)
       = matchAtoms as (if kw = [] then prev else Some (last kw)) s"
proof (induction kw arbitrary: k prev)
  case Nil
  then show ?case by (simp add: litCI_def)
next
  case (Cons c kw)
  then obtain p k' where k: "k = p # k'" by (cases k) auto
  with Cons.prems have "asciiUpper c = asciiUpper p" and "map asciiUpper kw = map asciiUpper k'"
    by simp_all
  with Cons.IH [of k' "Some c"] k show ?case by (simp add: litCI_def)
qed

lemma pipe_stage:
  assumes "k \<noteq> []" and "isLowerAscii (last k)" and "map asciiUpper kw = map asciiUpper k"
    and "\<forall>c \<in> set ws. isSpace c" and "rest = [] \<or> \<not> isWord (hd rest)"
  shows "test (lit ''|'' @ zeroOrMore isSpace @ litCI k @ [WordBoundary]) (a @ ''|'' @ ws @ kw @ rest)"
proof -
  from assms(1,3) have kw: "kw \<noteq> []" by auto
  from assms(1,3) kw have "asciiUpper (last kw) = asciiUpper (last k)"
    by (metis last_map)
  with assms(2) have w: "isWord (last kw)" by (simp add: asciiUpper_word)
  from assms(5) have nw: "\<not> isWordOpt (headOpt rest)"
    by (cases rest) (auto simp: isWordOpt_def headOpt_def)
  have "matchAtoms [WordBoundary] (Some (last kw)) rest"
    using w nw by (simp add: isWordOpt_def)
  then have "matchAtoms (litCI k @ [WordBoundary]) (if ws = [] then Some CHR ''|'' else Some (last ws)) (kw @ rest)"
    using matchAtoms_litCI [OF assms(3)] kw by simp
  then have "matchAtoms (Many isSpace # litCI k @ [WordBoundary]) (Some CHR ''|'') (ws @ kw @ rest)"
    using matchAtoms_Many [OF assms(4)] by blast
  then have "matchAtoms (lit ''|'' @ zeroOrMore isSpace @ litCI k @ [WordBoundary])
               (if a = [] then None else Some (last a)) (''|'' @ ws @ kw @ rest)"
    by (simp add: lit_def zeroOrMore_def)
  then show ?thesis unfolding test_def by (rule searchFrom_append)
qed


section \<open>Dialect detection\<close>

lemma detect_dataprime_iff:
  "(detectQuerySyntax q = dataprime) = (\<exists>p \<in> set dataPrimePatterns. test p q)"
  by (simp add: detectQuerySyntax_def Let_def some_iff)

lemma detect_lucene_iff:
  "(detectQuerySyntax q = lucene) = (\<not> (\<exists>p \<in> set dataPrimePatterns. test p q))"
  by (simp add: detectQuerySyntax_def Let_def some_iff)

lemma no_pipe_no_match:
  "CHR ''|'' \<notin> set q \<Longrightarrow> One (\<lambda>c. c = CHR ''|'') \<in> set p \<Longrightarrow> \<not> test p q"
  using test_needs [of p q "\<lambda>c. c = CHR ''|''"] by auto

lemma no_space_no_match:
  "\<forall>c \<in> set q. \<not> isSpace c \<Longrightarrow> One isSpace \<in> set p \<Longrightarrow> \<not> test p q"
  using test_needs [of p q isSpace] by auto

lemma keyword_stage:
  assumes "k \<in> set [''filter'', ''limit'', ''sort'', ''groupby'', ''summarize'', ''choose'', ''extract'']"
    and "map asciiUpper kw = map asciiUpper k"
    and "\<forall>c \<in> set ws. isSpace c" and "rest = [] \<or> \<not> isWord (hd rest)"
  shows "detectQuerySyntax (a @ ''|'' @ ws @ kw @ rest) = dataprime"
proof -
  have low: "isLowerAscii CHR ''r''" "isLowerAscii CHR ''t''" "isLowerAscii CHR ''y''"
    "isLowerAscii CHR ''e''"
    by code_simp+
  from assms(1) have k: "k \<noteq> []" "isLowerAscii (last k)"
    using low by auto
  from assms(1) have "lit ''|'' @ zeroOrMore isSpace @ litCI k @ [WordBoundary] \<in> set dataPrimePatterns"
    by (auto simp: dataPrimePatterns_def)
  moreover have "test (lit ''|'' @ zeroOrMore isSpace @ litCI k @ [WordBoundary]) (a @ ''|'' @ ws @ kw @ rest)"
    using k assms(2-4) by (rule pipe_stage)
  ultimately show ?thesis
    unfolding detect_dataprime_iff by blast
qed

lemma detect_without_pipe:
  assumes "CHR ''|'' \<notin> set q"
  shows "detectQuerySyntax q
     = (if test (oneOrMore isSpace @ litCI ''contains'' @ oneOrMore isSpace) q
           \<or> test (oneOrMore isSpace @ litCI ''startswith'' @ oneOrMore isSpace) q
           \<or> test (oneOrMore isSpace @ litCI ''endswith'' @ oneOrMore isSpace) q
        then dataprime else lucene)"
proof -
  have "\<not> test p q" if "One (\<lambda>c. c = CHR ''|'') \<in> set p" for p
    using assms that by (rule no_pipe_no_match)
  then have "\<not> test ([WordBoundary] @ litCI ''source'' @ oneOrMore isSpace @ oneOrMore isWord @ zeroOrMore isSpace @ lit ''|'') q"
    and "\<And>k. \<not> test (lit ''|'' @ zeroOrMore isSpace @ litCI k @ [WordBoundary]) q"
    by (simp_all add: lit_def)
  then show ?thesis
    by (simp add: detectQuerySyntax_def dataPrimePatterns_def Let_def)
qed

lemma detect_without_pipe_and_space:
  assumes "CHR ''|'' \<notin> set q" and "\<forall>c \<in> set q. \<not> isSpace c"
  shows "detectQuerySyntax q = lucene"
proof -
  have "\<not> test (oneOrMore isSpace @ as) q" for as
    using assms(2) by (rule no_space_no_match) (simp add: oneOrMore_def)
  then show ?thesis
    using detect_without_pipe [OF assms(1)] by simp
qed

text \<open>
  Claim C2, as stated, fails in its second half: a string without any pipe is classified
  \<open>dataprime\<close> when it holds \<open>contains\<close> between white space.
\<close>

theorem C2_text_relation_counterexample:
  "CHR ''|'' \<notin> set ''message contains timeout''
   \<and> detectQuerySyntax ''message contains timeout'' = dataprime"
  by code_simp

text \<open>
  Claim C2, amended: detection returns \<open>dataprime\<close> exactly when one of the eleven
  patterns matches, and \<open>lucene\<close> otherwise. A pipe, optional white space and one of the
  seven keywords in any letter case, ending at a word boundary, gives \<open>dataprime\<close> wherever
  it stands. For a string without a pipe the answer is decided by the three text-relation
  patterns (\<open>contains\<close>, \<open>startswith\<close>, \<open>endswith\<close> between white space) alone; a string
  with neither a pipe nor white space is \<open>lucene\<close>.
\<close>

theorem C2_dialect_detection:
  "(detectQuerySyntax q = dataprime) = (\<exists>p \<in> set dataPrimePatterns. test p q)
   \<and> (detectQuerySyntax q = lucene) = (\<not> (\<exists>p \<in> set dataPrimePatterns. test p q))
   \<and> (k \<in> set [''filter'', ''limit'', ''sort'', ''groupby'', ''summarize'', ''choose'', ''extract'']
        \<and> map asciiUpper kw = map asciiUpper k \<and> (\<forall>c \<in> set ws. isSpace c)
        \<and> (rest = [] \<or> \<not> isWord (hd rest))
      \<longrightarrow> detectQuerySyntax (a @ ''|'' @ ws @ kw @ rest) = dataprime)
   \<and> (CHR ''|'' \<notin> set q \<longrightarrow>
        detectQuerySyntax q
        = (if test (oneOrMore isSpace @ litCI ''contains'' @ oneOrMore isSpace) q
              \<or> test (oneOrMore isSpace @ litCI ''startswith'' @ oneOrMore isSpace) q
              \<or> test (oneOrMore isSpace @ litCI ''endswith'' @ oneOrMore isSpace) q
           then dataprime else lucene))
   \<and> (CHR ''|'' \<notin> set q \<and> (\<forall>c \<in> set q. \<not> isSpace c) \<longrightarrow> detectQuerySyntax q = lucene)"
  using detect_dataprime_iff [of q] detect_lucene_iff [of q] keyword_stage [of k kw ws rest a]
    detect_without_pipe [of q] detect_without_pipe_and_space [of q]
  by blast

theorem C2_dialect_detection_witness:
  "detectQuerySyntax ''source logs | FILTER level'' = dataprime
   \<and> detectQuerySyntax ''level:ERROR'' = lucene"
proof -
  have h1: "''filter'' \<in> set [''filter'', ''limit'', ''sort'', ''groupby'', ''summarize'', ''choose'', ''extract'']"
    by simp
  have h2: "map asciiUpper ''FILTER'' = map asciiUpper ''filter''" by code_simp
  have h3: "\<forall>c \<in> set '' ''. isSpace c" by (simp add: isSpace_def)
  have h4: "'' level'' = [] \<or> \<not> isWord (hd '' level'')" by code_simp
  have h5: "CHR ''|'' \<notin> set ''level:ERROR'' \<and> (\<forall>c \<in> set ''level:ERROR''. \<not> isSpace c)"
    by (simp add: isSpace_def)
  note c = C2_dialect_detection [of "''level:ERROR''" "''filter''" "''FILTER''" "'' ''" "'' level''"
         "''source logs ''"]
  from c h1 h2 h3 h4 have "detectQuerySyntax ''source logs | FILTER level'' = dataprime"
    by simp
  moreover from c h5 have "detectQuerySyntax ''level:ERROR'' = lucene"
    by blast
  ultimately show ?thesis by simp
qed


section \<open>Query optimization\<close>

lemma not_space_DQ: "\<not> isSpace DQ"
  by (simp add: isSpace_def DQ_def)

lemma optimizeLucene_idem:
  "optimizeLuceneQuery (optimizeLuceneQuery q) = optimizeLuceneQuery q"
proof -
  define t where "t = trim q"
  have tt: "trim t = t" by (simp add: t_def trim_trim)
  define plain where "plain = (CHR '':'' \<notin> set t \<and> CHR ''('' \<notin> set t \<and> DQ \<notin> set t)"
  have q: "optimizeLuceneQuery q
           = (if t = ''*'' \<or> t = [] then t else if plain then [DQ] @ t @ [DQ] else t)"
    by (simp add: optimizeLuceneQuery_def Let_def t_def plain_def includes_single)
  have t: "optimizeLuceneQuery t
           = (if t = ''*'' \<or> t = [] then t else if plain then [DQ] @ t @ [DQ] else t)"
    by (simp add: optimizeLuceneQuery_def Let_def tt plain_def includes_single)
  have "trim ([DQ] @ t @ [DQ]) = [DQ] @ t @ [DQ]"
    by (rule trim_id) (simp_all add: not_space_DQ)
  then have w: "optimizeLuceneQuery ([DQ] @ t @ [DQ]) = [DQ] @ t @ [DQ]"
    by (simp add: optimizeLuceneQuery_def Let_def includes_single DQ_def)
  show ?thesis
    unfolding q using t w by simp
qed

lemma limit_suffix:
  "showNat (nat MAX_LIMIT) = ''50''"
  "toLowerCase '' | limit 50'' = '' | limit 50''"
  "includes_str '' | limit 50'' ''| limit''"
  by code_simp+

lemma optimizeDataPrime_eq:
  "optimizeDataPrimeQuery q
   = (if includes_str (toLowerCase (trim q)) ''| limit'' then trim q else trim q @ '' | limit 50'')"
  by (simp add: optimizeDataPrimeQuery_def Let_def limit_suffix(1))

lemma optimizeDataPrime_idem:
  assumes "trim q \<noteq> []"
  shows "optimizeDataPrimeQuery (optimizeDataPrimeQuery q) = optimizeDataPrimeQuery q"
proof (cases "includes_str (toLowerCase (trim q)) ''| limit''")
  case True
  then show ?thesis by (simp add: optimizeDataPrime_eq trim_trim)
next
  case False
  define r where "r = trim q @ '' | limit 50''"
  have "\<not> isSpace (hd r)"
    using assms trim_hd_last [OF assms] by (simp add: r_def)
  moreover have "\<not> isSpace (last r)"
    by (simp add: r_def isSpace_def)
  ultimately have tr: "trim r = r"
    by (intro trim_id) (simp_all add: r_def)
  have "toLowerCase r = toLowerCase (trim q) @ '' | limit 50''"
    using limit_suffix(2) by (simp add: r_def toLowerCase_def)
  then have "includes_str (toLowerCase r) ''| limit''"
    using limit_suffix(3) by (simp add: includes_appendI)
  with tr have "optimizeDataPrimeQuery r = r"
    by (simp add: optimizeDataPrime_eq)
  moreover from False have "optimizeDataPrimeQuery q = r"
    by (simp add: optimizeDataPrime_eq r_def)
  ultimately show ?thesis by simp
qed

lemma test_nonblank:
  assumes "test p q" and "One P \<in> set p" and "\<And>c. P c \<Longrightarrow> \<not> isSpace c"
  shows "trim q \<noteq> []"
  using test_needs [OF assms(1,2)] assms(3) by (auto simp: trim_Nil_iff)

lemma detect_dataprime_nonblank:
  assumes "detectQuerySyntax q = dataprime"
  shows "trim q \<noteq> []"
proof -
  from assms obtain p where p: "p \<in> set dataPrimePatterns" and t: "test p q"
    unfolding detect_dataprime_iff by blast
  have low: "isLowerAscii CHR ''c''" "isLowerAscii CHR ''s''" "isLowerAscii CHR ''e''"
    by code_simp+
  from p consider
      (pipe) "One (\<lambda>c. c = CHR ''|'') \<in> set p"
    | (c) "One (\<lambda>c. asciiUpper c = asciiUpper CHR ''c'') \<in> set p"
    | (s) "One (\<lambda>c. asciiUpper c = asciiUpper CHR ''s'') \<in> set p"
    | (e) "One (\<lambda>c. asciiUpper c = asciiUpper CHR ''e'') \<in> set p"
    by (auto simp: dataPrimePatterns_def lit_def litCI_def oneOrMore_def zeroOrMore_def)
  then show ?thesis
  proof cases
    case pipe
    with t show ?thesis by (rule test_nonblank) (simp add: isSpace_def)
  next
    case c
    with t show ?thesis by (rule test_nonblank) (simp add: asciiUpper_not_space [OF low(1)])
  next
    case s
    with t show ?thesis by (rule test_nonblank) (simp add: asciiUpper_not_space [OF low(2)])
  next
    case e
    with t show ?thesis by (rule test_nonblank) (simp add: asciiUpper_not_space [OF low(3)])
  qed
qed

lemma optimizeDataPrime_blank_not_idempotent:
  "optimizeQuery (optimizeQuery [] dataprime) dataprime \<noteq> optimizeQuery [] dataprime"
  by code_simp

text \<open>
  Claim C7: for every query \<open>q\<close> and the dialect \<open>d\<close> detected for it, optimizing the
  optimized query again for \<open>d\<close> changes nothing. For \<open>lucene\<close> this holds for every
  string, for \<open>dataprime\<close> for every string that is not blank (a detected \<open>dataprime\<close>
  query never is). For \<open>lucene\<close>, \<open>*\<close> and the empty string stay as they are and a trimmed
  query with none of \<open>:\<close>, \<open>(\<close>, \<open>"\<close> is wrapped in double quotes; for \<open>dataprime\<close>,
  \<open>| limit 50\<close> is appended exactly when the lower-cased trimmed query has no \<open>| limit\<close>.
\<close>

theorem C7_optimizeQuery_idempotent:
  "optimizeQuery (optimizeQuery q (detectQuerySyntax q)) (detectQuerySyntax q)
     = optimizeQuery q (detectQuerySyntax q)
   \<and> optimizeQuery (optimizeQuery q lucene) lucene = optimizeQuery q lucene
   \<and> (trim q \<noteq> [] \<longrightarrow>
        optimizeQuery (optimizeQuery q dataprime) dataprime = optimizeQuery q dataprime)
   \<and> optimizeQuery ''*'' lucene = ''*'' \<and> optimizeQuery [] lucene = []
   \<and> (trim q \<noteq> ''*'' \<and> trim q \<noteq> [] \<and> CHR '':'' \<notin> set (trim q) \<and> CHR ''('' \<notin> set (trim q)
        \<and> DQ \<notin> set (trim q)
      \<longrightarrow> optimizeQuery q lucene = [DQ] @ trim q @ [DQ])
   \<and> optimizeQuery q dataprime
     = (if includes_str (toLowerCase (trim q)) ''| limit'' then trim q
        else trim q @ '' | limit 50'')"
proof -
  have det: "optimizeQuery (optimizeQuery q (detectQuerySyntax q)) (detectQuerySyntax q)
     = optimizeQuery q (detectQuerySyntax q)"
  proof (cases "detectQuerySyntax q")
    case lucene
    then show ?thesis by (simp add: optimizeQuery_def optimizeLucene_idem)
  next
    case dataprime
    then show ?thesis
      using detect_dataprime_nonblank [OF dataprime]
      by (simp add: optimizeQuery_def optimizeDataPrime_idem)
  qed
  have star: "optimizeQuery ''*'' lucene = ''*''" and empty: "optimizeQuery [] lucene = []"
    by code_simp+
  have wrap: "optimizeQuery q lucene = [DQ] @ trim q @ [DQ]"
    if "trim q \<noteq> ''*''" "trim q \<noteq> []" "CHR '':'' \<notin> set (trim q)" "CHR ''('' \<notin> set (trim q)"
       "DQ \<notin> set (trim q)"
    using that by (simp add: optimizeQuery_def optimizeLuceneQuery_def Let_def includes_single)
  have luc: "optimizeQuery (optimizeQuery q lucene) lucene = optimizeQuery q lucene"
    by (simp add: optimizeQuery_def optimizeLucene_idem)
  have dp: "optimizeQuery (optimizeQuery q dataprime) dataprime = optimizeQuery q dataprime"
    if "trim q \<noteq> []"
    using that by (simp add: optimizeQuery_def optimizeDataPrime_idem)
  have eq: "optimizeQuery q dataprime
     = (if includes_str (toLowerCase (trim q)) ''| limit'' then trim q
        else trim q @ '' | limit 50'')"
    by (simp add: optimizeQuery_def optimizeDataPrime_eq)
  show ?thesis
    using det luc dp star empty wrap eq by blast
qed

theorem C7_optimizeQuery_idempotent_witness:
  "optimizeQuery '' connection refused '' lucene = [DQ] @ ''connection refused'' @ [DQ]
   \<and> optimizeQuery (optimizeQuery ''source logs | filter x'' dataprime) dataprime
     = optimizeQuery ''source logs | filter x'' dataprime"
proof -
  have t: "trim '' connection refused '' = ''connection refused''"
    and u: "trim ''source logs | filter x'' \<noteq> []"
    by code_simp+
  have h: "''connection refused'' \<noteq> ''*'' \<and> ''connection refused'' \<noteq> []
      \<and> CHR '':'' \<notin> set ''connection refused'' \<and> CHR ''('' \<notin> set ''connection refused''
      \<and> DQ \<notin> set ''connection refused''"
    by (simp add: DQ_def)
  from C7_optimizeQuery_idempotent [of "'' connection refused ''"] t h
  have "optimizeQuery '' connection refused '' lucene = [DQ] @ ''connection refused'' @ [DQ]"
    by simp
  moreover from C7_optimizeQuery_idempotent [of "''source logs | filter x''"] u
  have "optimizeQuery (optimizeQuery ''source logs | filter x'' dataprime) dataprime
     = optimizeQuery ''source logs | filter x'' dataprime"
    by blast
  ultimately show ?thesis by simp
qed

section \<open>Truncation of stack traces\<close>

lemma split_LF_nonempty: "split_LF s \<noteq> []"
  by (induction s) (auto split: list.splits)

lemma split_LF_no_LF: "LF \<notin> set a \<Longrightarrow> split_LF a = [a]"
  by (induction a) auto

lemma split_LF_append: "LF \<notin> set a \<Longrightarrow> split_LF (a @ LF # b) = a # split_LF b"
  by (induction a) auto

lemma truncateStackTrace_eq:
  "truncateStackTrace text
   = hd (split_LF text) @ [LF] @ join_LF (tl (take 5 (split_LF text)))
       @ (if drop 5 (split_LF text) = [] then []
          else [LF] @ ''... and '' @ showNat (length (drop 5 (split_LF text))) @ '' more lines'')"
proof -
  define ls where "ls = split_LF text"
  have ne: "ls \<noteq> []" by (simp add: ls_def split_LF_nonempty)
  then have hd: "(case ls of [] \<Rightarrow> [] | l # _ \<Rightarrow> l) = hd ls"
    by (cases ls) auto
  have sl: "slice ls 1 5 = tl (take 5 ls)"
    by (simp add: slice_def tl_take drop_Suc)
  have rem: "(int (length ls) - int 5 > 0) = (drop 5 ls \<noteq> [])"
    by auto
  have k: "nat (int (length ls) - int 5) = length (drop 5 ls)"
    by simp
  show ?thesis
    unfolding truncateStackTrace_def MAX_STACK_TRACE_LINES_def Let_def ls_def [symmetric]
      hd sl rem k
    by simp
qed

text \<open>
  Claim C6, amended: for every message whose trimmed text is longer than 1000 characters
  and matches a stack-trace pattern, the result is the first line of the trimmed text,
  then its next lines up to the fifth line of the text (at most 4 lines after the first:
  \<open>MAX_STACK_TRACE_LINES = 5\<close> counts the first line too), and, when the text has more than
  5 lines, the marker \<open>... and K more lines\<close> where \<open>K\<close> is the number of the lines left out.
\<close>

theorem C6_stack_trace_truncation:
  assumes "length (trim text) > 1000" and "isStackTrace (trim text)"
  shows "split_LF (trim text) = take 5 (split_LF (trim text)) @ drop 5 (split_LF (trim text))
    \<and> take 5 (split_LF (trim text)) \<noteq> []
    \<and> length (tl (take 5 (split_LF (trim text)))) \<le> 4
    \<and> processMessage text
      = hd (take 5 (split_LF (trim text))) @ [LF] @ join_LF (tl (take 5 (split_LF (trim text))))
          @ (if drop 5 (split_LF (trim text)) = [] then []
             else [LF] @ ''... and '' @ showNat (length (drop 5 (split_LF (trim text))))
                    @ '' more lines'')"
proof -
  from assms(1) have "text \<noteq> []" by (auto simp: trim_def)
  with assms have "processMessage text = truncateStackTrace (trim text)"
    by (simp add: processMessage_def intelligentTruncate_def Let_def MAX_MESSAGE_LENGTH_def)
  moreover have "hd (take 5 (split_LF (trim text))) = hd (split_LF (trim text))"
    by (cases "split_LF (trim text)") simp_all
  ultimately show ?thesis
    by (simp add: truncateStackTrace_eq split_LF_nonempty)
qed

lemma filler_props: "length filler = 1000" "LF \<notin> set filler"
  by (simp_all add: filler_def LF_def)

lemma example_lines:
  "split_LF stackTraceExample
   = [''TypeError: '' @ filler, ''    at a (a.js:1)'', ''    at b (b.js:2)'', ''    at c (c.js:3)'',
      ''    at d (d.js:4)'', ''    at e (e.js:5)'']"
proof -
  have l: "LF \<notin> set (''TypeError: '' @ filler)" "LF \<notin> set ''    at a (a.js:1)''"
    "LF \<notin> set ''    at b (b.js:2)''" "LF \<notin> set ''    at c (c.js:3)''"
    "LF \<notin> set ''    at d (d.js:4)''" "LF \<notin> set ''    at e (e.js:5)''"
    using filler_props(2) by (simp_all add: LF_def)
  have eq: "stackTraceExample
     = (''TypeError: '' @ filler) @ LF # ''    at a (a.js:1)'' @ LF # ''    at b (b.js:2)''
       @ LF # ''    at c (c.js:3)'' @ LF # ''    at d (d.js:4)'' @ LF # ''    at e (e.js:5)''"
    by (simp add: stackTraceExample_def)
  show ?thesis
    unfolding eq
    by (simp only: split_LF_append [OF l(1)] split_LF_append [OF l(2)] split_LF_append [OF l(3)]
          split_LF_append [OF l(4)] split_LF_append [OF l(5)] split_LF_no_LF [OF l(6)])
qed

lemma example_trim: "trim stackTraceExample = stackTraceExample"
  by (rule trim_id) (simp_all add: stackTraceExample_def isSpace_def)

lemma example_length: "length stackTraceExample > 1000"
  by (simp add: stackTraceExample_def filler_props)

lemma example_isStackTrace: "isStackTrace stackTraceExample"
proof -
  have "matchAtoms ([LineStart] @ zeroOrMore isSpace @ lit ''at'' @ oneOrMore isSpace)
          (Some LF) (''    at a (a.js:1)'' @ [LF] @ ''    at b (b.js:2)''
       @ [LF] @ ''    at c (c.js:3)'' @ [LF] @ ''    at d (d.js:4)'' @ [LF]
       @ ''    at e (e.js:5)'')"
    by (simp add: zeroOrMore_def lit_def oneOrMore_def isLineTerminator_def LF_def isSpace_def)
  then have "test ([LineStart] @ zeroOrMore isSpace @ lit ''at'' @ oneOrMore isSpace)
               ((''TypeError: '' @ filler @ [LF]) @ ''    at a (a.js:1)'' @ [LF] @ ''    at b (b.js:2)''
       @ [LF] @ ''    at c (c.js:3)'' @ [LF] @ ''    at d (d.js:4)'' @ [LF]
       @ ''    at e (e.js:5)'')"
    unfolding test_def by (intro searchFrom_append) simp
  then show ?thesis
    by (simp add: isStackTrace_def some_iff stackTracePatterns_def stackTraceExample_def)
qed

lemma example_truncated:
  "truncateStackTrace stackTraceExample
     = ''TypeError: '' @ filler @ [LF] @ ''    at a (a.js:1)'' @ [LF] @ ''    at b (b.js:2)''
        @ [LF] @ ''    at c (c.js:3)'' @ [LF] @ ''    at d (d.js:4)'' @ [LF]
        @ ''... and 1 more lines''"
proof -
  have one: "showNat (Suc 0) = ''1''" by code_simp
  show ?thesis
    unfolding truncateStackTrace_eq example_lines by (simp add: one)
qed

lemma example_processed:
  "processMessage stackTraceExample = truncateStackTrace stackTraceExample"
proof -
  have "stackTraceExample \<noteq> []" using example_length by auto
  then show ?thesis
    using example_length example_isStackTrace
    by (simp add: processMessage_def intelligentTruncate_def Let_def MAX_MESSAGE_LENGTH_def
          example_trim)
qed

lemma example_spec: "truncateStackTrace_spec stackTraceExample = stackTraceExample"
  unfolding truncateStackTrace_spec_def Let_def example_lines
  by (simp add: stackTraceExample_def)

text \<open>
  Claim C6, as stated, fails on a trace of six lines: keeping the first line and up to 5
  lines after it would keep the whole message, but the code keeps 4 lines after the first,
  leaves the sixth line out and reports 1 more line.
\<close>

theorem C6_fifth_stack_line_counterexample:
  "length (trim stackTraceExample) > 1000 \<and> isStackTrace (trim stackTraceExample)
   \<and> length (split_LF (trim stackTraceExample)) = 6
   \<and> truncateStackTrace_spec (trim stackTraceExample) = stackTraceExample
   \<and> processMessage stackTraceExample
     = ''TypeError: '' @ filler @ [LF] @ ''    at a (a.js:1)'' @ [LF] @ ''    at b (b.js:2)''
        @ [LF] @ ''    at c (c.js:3)'' @ [LF] @ ''    at d (d.js:4)'' @ [LF]
        @ ''... and 1 more lines''
   \<and> processMessage stackTraceExample \<noteq> truncateStackTrace_spec (trim stackTraceExample)"
proof -
  have len: "length (split_LF stackTraceExample) = 6"
    unfolding example_lines by simp
  have "truncateStackTrace stackTraceExample \<noteq> stackTraceExample"
    unfolding example_truncated by (simp add: stackTraceExample_def)
  then have "processMessage stackTraceExample \<noteq> truncateStackTrace_spec stackTraceExample"
    by (simp only: example_processed example_spec not_False_eq_True)
  then show ?thesis
    unfolding example_trim
    using example_length example_isStackTrace len example_spec example_processed example_truncated
    by (simp only: simp_thms)
qed

theorem C6_stack_trace_truncation_witness:
  "processMessage stackTraceExample
     = ''TypeError: '' @ filler @ [LF] @ ''    at a (a.js:1)'' @ [LF] @ ''    at b (b.js:2)''
        @ [LF] @ ''    at c (c.js:3)'' @ [LF] @ ''    at d (d.js:4)'' @ [LF]
        @ ''... and 1 more lines''"
proof -
  have one: "showNat (Suc 0) = ''1''" by code_simp
  have h1: "length (trim stackTraceExample) > 1000"
    and h2: "isStackTrace (trim stackTraceExample)"
    using example_length example_isStackTrace by (simp_all only: example_trim)
  have "processMessage stackTraceExample
      = hd (take 5 (split_LF (trim stackTraceExample))) @ [LF]
          @ join_LF (tl (take 5 (split_LF (trim stackTraceExample))))
          @ (if drop 5 (split_LF (trim stackTraceExample)) = [] then []
             else [LF] @ ''... and '' @ showNat (length (drop 5 (split_LF (trim stackTraceExample))))
                    @ '' more lines'')"
    using C6_stack_trace_truncation [OF h1 h2] by (elim conjE)
  then show ?thesis
    unfolding example_trim example_lines by (simp add: one)
qed

end
